theory Spec2Isabelle
  imports Complex_Main "HOL-Library.Code_Target_Numeral"
begin

section \<open>Data model\<close>

text \<open>
  The map component keeps its data in plain JavaScript objects. A marker is the object
  \<^verbatim>\<open>{ id, position: [lat, lng], title, description, category, image }\<close>.
  Numbers are IEEE doubles in the source; here a finite double is the \<open>real\<close> it denotes
  and the three non-finite doubles are separate constructors, so that the
  \<^verbatim>\<open>isFinite\<close> guards of the source are branches of the model. A stored position is
  always a pair of finite numbers. \<^verbatim>\<open>category\<close> and \<^verbatim>\<open>image\<close> may be absent
  (\<^verbatim>\<open>undefined\<close> or \<^verbatim>\<open>null\<close>), which is \<open>None\<close>. Strings are lists of 8-bit
  characters.
\<close>

datatype jsnum = Fin real | NaN | PosInf | NegInf

record marker =
  marker_id :: int
  position :: "real \<times> real"
  title :: string
  description :: string
  category :: "string option"
  image_m :: "string option"

text \<open>A drawn shape is a GeoJSON feature; its content plays no role below.\<close>

datatype shape = GeoJSON string

record project =
  proj_name :: string
  proj_markers :: "marker list"
  proj_shapes :: "shape list"

text \<open>
  The state of the \<^verbatim>\<open>Map\<close> component: the React state variables \<^verbatim>\<open>savedMaps\<close>,
  \<^verbatim>\<open>currentMap\<close>, \<^verbatim>\<open>markers\<close>, \<^verbatim>\<open>shapes\<close>, and the value stored under the key
  \<^verbatim>\<open>"maps"\<close> in \<^verbatim>\<open>localStorage\<close>. \<^verbatim>\<open>savedMaps\<close> is an object whose keys are
  \<^verbatim>\<open>"default"\<close> and \<^verbatim>\<open>"map_<timestamp>"\<close>; \<^verbatim>\<open>Object.keys\<close> lists such keys in
  insertion order, so the object is an association list.
\<close>

record state =
  savedMaps :: "(string \<times> project) list"
  currentMap :: string
  markers :: "marker list"
  shapes :: "shape list"
  stored :: "(string \<times> project) list option"

text \<open>
  The messages the import collects in \<^verbatim>\<open>errors\<close>, each with its row number \<^verbatim>\<open>i + 2\<close>:
  \<^verbatim>\<open>Row n: missing coordinates\<close>, \<^verbatim>\<open>Row n: invalid lat/lng (latRaw, lngRaw)\<close> and
  \<^verbatim>\<open>Row n: duplicate marker skipped\<close>.
\<close>

datatype row_error =
    MissingCoordinates nat
  | InvalidCoordinates nat string string
  | DuplicateSkipped nat

text \<open>The messages the component shows with \<^verbatim>\<open>alert\<close>.\<close>

datatype alert =
    CantDeleteDefault        \<comment> \<open>\<^verbatim>\<open>Can't delete default map\<close>\<close>
  | InvalidLatLng            \<comment> \<open>\<^verbatim>\<open>Invalid latitude/longitude.\<close>\<close>
  | DuplicateDetected        \<comment> \<open>\<^verbatim>\<open>Duplicate marker detected - marker not added.\<close>\<close>
  | DuplicateNear            \<comment> \<open>\<^verbatim>\<open>A marker already exists near this location (duplicate prevented).\<close>\<close>
  | MissingColumns           \<comment> \<open>\<^verbatim>\<open>CSV must include 'Latitude' and 'Longitude' columns.\<close>\<close>
  | ImportComplete nat "row_error list"
      \<comment> \<open>\<^verbatim>\<open>Import complete. n markers added.\<close> and, under \<^verbatim>\<open>Warnings:\<close>, the messages shown\<close>

section \<open>Editing a marker field\<close>

text \<open>
  \<^verbatim>\<open>handleTextChange(id, field, value)\<close> is
  \<^verbatim>\<open>setMarkers(prev => prev.map(m => m.id === id ? { ...m, [field]: value } : m))\<close>.
  The component calls it from three form controls only, with the literal field names
  \<^verbatim>\<open>"title"\<close>, \<^verbatim>\<open>"description"\<close> and \<^verbatim>\<open>"category"\<close> and the control's string
  value, so the field name is a three-valued type.
\<close>

datatype field = Title | Description | Category

fun set_field :: "field \<Rightarrow> string \<Rightarrow> marker \<Rightarrow> marker" where
  "set_field Title v m = m\<lparr>title := v\<rparr>"
| "set_field Description v m = m\<lparr>description := v\<rparr>"
| "set_field Category v m = m\<lparr>category := Some v\<rparr>"

fun get_field :: "field \<Rightarrow> marker \<Rightarrow> string option" where
  "get_field Title m = Some (title m)"
| "get_field Description m = Some (description m)"
| "get_field Category m = category m"

definition handleTextChange :: "int \<Rightarrow> field \<Rightarrow> string \<Rightarrow> marker list \<Rightarrow> marker list" where
  "handleTextChange i f v prev = map (\<lambda>m. if marker_id m = i then set_field f v m else m) prev"

section \<open>Deleting a map\<close>

text \<open>
  \<^verbatim>\<open>handleDeleteMap\<close> deletes the current map. The answer of \<^verbatim>\<open>window.confirm\<close> is
  the argument \<open>confirm\<close>. \<^verbatim>\<open>Object.keys(updated)[0] || "default"\<close> is the first key,
  unless there is none or it is the empty string (which is falsy).
\<close>

definition first_key_or_default :: "(string \<times> project) list \<Rightarrow> string" where
  "first_key_or_default updated =
     (case map fst updated of
        [] \<Rightarrow> ''default''
      | k # _ \<Rightarrow> if k = [] then ''default'' else k)"

definition delete_key :: "string \<Rightarrow> (string \<times> project) list \<Rightarrow> (string \<times> project) list" where
  "delete_key k obj = filter (\<lambda>e. fst e \<noteq> k) obj"

definition handleDeleteMap :: "bool \<Rightarrow> state \<Rightarrow> alert option \<times> state" where
  "handleDeleteMap confirm st =
     (if currentMap st = ''default'' then (Some CantDeleteDefault, st)
      else if \<not> confirm then (None, st)
      else
        let updated = delete_key (currentMap st) (savedMaps st);
            nextMap = first_key_or_default updated
        in (None,
            st\<lparr>savedMaps := updated,
               currentMap := nextMap,
               markers := (case map_of updated nextMap of Some p \<Rightarrow> proj_markers p | None \<Rightarrow> []),
               shapes := (case map_of updated nextMap of Some p \<Rightarrow> proj_shapes p | None \<Rightarrow> []),
               stored := Some updated\<rparr>))"

section \<open>Duplicate detection and adding a marker\<close>

text \<open>
  \<^verbatim>\<open>isDuplicate(lat, lng, thresholdMeters = 5)\<close> walks over \<^verbatim>\<open>markers\<close> and computes,
  for each, the haversine distance with \<^verbatim>\<open>R = 6371e3\<close>; it returns true at the first
  marker whose distance is at most the threshold. \<open>distance_m\<close> is the body of the loop
  up to \<^verbatim>\<open>const d = R * c\<close>, and \<open>atan2\<close> is \<^verbatim>\<open>Math.atan2\<close>.

  \<open>distance_m\<close> is the exact value of the formula. The source evaluates the formula in
  double arithmetic, where every operation and every call of \<^verbatim>\<open>Math.sin\<close>,
  \<^verbatim>\<open>Math.cos\<close>, \<^verbatim>\<open>Math.sqrt\<close> and \<^verbatim>\<open>Math.atan2\<close> rounds, so its \<^verbatim>\<open>d\<close> agrees with
  \<open>distance_m\<close> only up to a relative error of a few units in the sixteenth digit, and
  the comparison with the threshold can differ when the distance is that close to 5
  metres. The properties below evaluate it only where rounding cannot matter: between
  equal positions, where both are 0, and between positions more than a hundred
  kilometres apart. A property about an arbitrary store either takes the answer of the
  duplicate test as a hypothesis or holds whichever way the test goes.
\<close>

definition toRad :: "real \<Rightarrow> real" where
  "toRad d = (d * pi) / 180"

definition atan2 :: "real \<Rightarrow> real \<Rightarrow> real" where
  "atan2 y x =
     (if 0 < x then arctan (y / x)
      else if x < 0 then (if 0 \<le> y then arctan (y / x) + pi else arctan (y / x) - pi)
      else if 0 < y then pi / 2
      else if y < 0 then - (pi / 2)
      else 0)"

definition distance_m :: "real \<Rightarrow> real \<Rightarrow> real \<Rightarrow> real \<Rightarrow> real" where
  "distance_m lat lng lat2 lon2 =
     (let R = 6371000;
          phi1 = toRad lat;
          phi2 = toRad lat2;
          dphi = toRad (lat2 - lat);
          dlam = toRad (lon2 - lng);
          a = sin (dphi / 2) * sin (dphi / 2) +
              cos phi1 * cos phi2 * sin (dlam / 2) * sin (dlam / 2);
          c = 2 * atan2 (sqrt a) (sqrt (1 - a))
      in R * c)"

fun isDuplicate :: "real \<Rightarrow> real \<Rightarrow> real \<Rightarrow> marker list \<Rightarrow> bool" where
  "isDuplicate lat lng thresholdMeters [] = False"
| "isDuplicate lat lng thresholdMeters (m # ms) =
     (if distance_m lat lng (fst (position m)) (snd (position m)) \<le> thresholdMeters then True
      else isDuplicate lat lng thresholdMeters ms)"

text \<open>
  The map-click handler calls \<^verbatim>\<open>isDuplicate\<close> on the raw numbers of the click. With a
  \<^verbatim>\<open>NaN\<close> or infinite argument every \<^verbatim>\<open>d\<close> of the loop is \<^verbatim>\<open>NaN\<close>, no comparison
  \<^verbatim>\<open>d <= thresholdMeters\<close> holds and the result is false.
\<close>

fun isDuplicate_js :: "jsnum \<Rightarrow> jsnum \<Rightarrow> marker list \<Rightarrow> bool" where
  "isDuplicate_js (Fin lat) (Fin lng) ms = isDuplicate lat lng 5 ms"
| "isDuplicate_js _ _ ms = False"

text \<open>
  The guard \<^verbatim>\<open>!isFinite(lat) || !isFinite(lng) || lat < -90 || lat > 90 || lng < -180 || lng > 180\<close>
  of \<^verbatim>\<open>handleAddMarker\<close> and of the import: \<open>None\<close> when it holds, the two finite
  numbers otherwise.
\<close>

fun checkLatLng :: "jsnum \<Rightarrow> jsnum \<Rightarrow> (real \<times> real) option" where
  "checkLatLng (Fin lat) (Fin lng) =
     (if lat < - 90 \<or> lat > 90 \<or> lng < - 180 \<or> lng > 180 then None else Some (lat, lng))"
| "checkLatLng _ _ = None"

text \<open>
  \<^verbatim>\<open>handleAddMarker(latlng)\<close>; \<open>now\<close> is the value of \<^verbatim>\<open>Date.now()\<close>. The result is the
  alert shown, if any, and the new value of \<^verbatim>\<open>markers\<close>.
\<close>

definition handleAddMarker :: "int \<Rightarrow> jsnum \<Rightarrow> jsnum \<Rightarrow> marker list \<Rightarrow> alert option \<times> marker list" where
  "handleAddMarker now lat lng ms =
     (case checkLatLng lat lng of
        None \<Rightarrow> (Some InvalidLatLng, ms)
      | Some (la, lo) \<Rightarrow>
          if isDuplicate la lo 5 ms then (Some DuplicateDetected, ms)
          else (None,
                ms @ [\<lparr>marker_id = now, position = (la, lo), title = ''New Marker'',
                        description = [], category = Some ''General'', image_m = None\<rparr>]))"

text \<open>
  The click handler of \<^verbatim>\<open>AddMarker\<close>: a click inside the search bar is ignored, a
  duplicate is refused, anything else goes to \<^verbatim>\<open>onAdd\<close>, which is \<^verbatim>\<open>handleAddMarker\<close>.
\<close>

definition addMarker_click :: "bool \<Rightarrow> int \<Rightarrow> jsnum \<Rightarrow> jsnum \<Rightarrow> marker list \<Rightarrow> alert option \<times> marker list" where
  "addMarker_click inSearchBar now lat lng ms =
     (if inSearchBar then (None, ms)
      else if isDuplicate_js lat lng ms then (Some DuplicateNear, ms)
      else handleAddMarker now lat lng ms)"

section \<open>Strings and numbers of the runtime\<close>

text \<open>
  The characters the source names: the double quote, the comma, line feed and carriage
  return. \<^verbatim>\<open>String.prototype.trim\<close> removes white space and line terminators at both
  ends; among 8-bit characters these are the codes 9 to 13, 32 and 160.
\<close>

abbreviation DQ :: char where "DQ \<equiv> CHR 0x22"
abbreviation COMMA :: char where "COMMA \<equiv> CHR 0x2C"
abbreviation LF :: char where "LF \<equiv> CHR 0x0A"
abbreviation CR :: char where "CR \<equiv> CHR 0x0D"

definition is_space :: "char \<Rightarrow> bool" where
  "is_space c = (c \<in> set [CHR 0x09, CHR 0x0A, CHR 0x0B, CHR 0x0C, CHR 0x0D, CHR 0x20, CHR 0xA0])"

definition trim :: "string \<Rightarrow> string" where
  "trim s = rev (dropWhile is_space (rev (dropWhile is_space s)))"

text \<open>
  The \<^verbatim>\<open>i\<close> flag of a regular expression makes the ASCII letters match in either case;
  \<open>to_lower\<close> maps the upper-case ones to lower case.
\<close>

definition to_lower :: "char \<Rightarrow> char" where
  "to_lower c =
     (case map_of (zip ''ABCDEFGHIJKLMNOPQRSTUVWXYZ'' ''abcdefghijklmnopqrstuvwxyz'') c of
        None \<Rightarrow> c
      | Some l \<Rightarrow> l)"

text \<open>
  \<^verbatim>\<open>Number(s)\<close> on a string, after the grammar \<^verbatim>\<open>StringNumericLiteral\<close> of ECMAScript:
  white space is trimmed; the empty string is 0; \<^verbatim>\<open>0x\<close>, \<^verbatim>\<open>0o\<close> and \<^verbatim>\<open>0b\<close> introduce
  unsigned hexadecimal, octal and binary integers; otherwise an optional sign is followed
  by \<^verbatim>\<open>Infinity\<close> or by a decimal literal with optional fraction and exponent; anything
  else is \<^verbatim>\<open>NaN\<close>. The mathematical value of the literal is rounded to the nearest
  double, a tie going to the even mantissa: a value below half the least subnormal
  becomes 0 and a value of at least \<open>2 ^ 1024 - 2 ^ 970\<close> becomes \<^verbatim>\<open>Infinity\<close>.
  (ECMAScript lets an implementation ignore the digits after the twentieth significant
  one; the engines round the whole literal, as is done here.)

  \<open>round_double num den\<close> is the double nearest to \<open>num / den\<close>. \<open>bitlen\<close> counts binary
  digits, \<open>E\<close> is the binary exponent of the quotient, \<open>k\<close> the exponent of the last
  mantissa bit (never below -1074), \<open>q\<close> the mantissa before rounding and \<open>r\<close> the
  remainder that decides the rounding.
\<close>

definition digit_of :: "char \<Rightarrow> nat option" where
  "digit_of c =
     (let n = (of_char c :: nat) in
      if 48 \<le> n \<and> n \<le> 57 then Some (n - 48)
      else if 97 \<le> n \<and> n \<le> 102 then Some (n - 87)
      else if 65 \<le> n \<and> n \<le> 70 then Some (n - 55)
      else None)"

definition is_digit :: "nat \<Rightarrow> char \<Rightarrow> bool" where
  "is_digit base c = (case digit_of c of Some d \<Rightarrow> d < base | None \<Rightarrow> False)"

definition digits_val :: "nat \<Rightarrow> string \<Rightarrow> nat" where
  "digits_val base s = foldl (\<lambda>n c. base * n + (case digit_of c of Some d \<Rightarrow> d | None \<Rightarrow> 0)) 0 s"

fun bitlen :: "nat \<Rightarrow> nat" where
  "bitlen n = (if n = 0 then 0 else Suc (bitlen (n div 2)))"

declare bitlen.simps [simp del]

definition scale2 :: "nat \<Rightarrow> int \<Rightarrow> real" where
  "scale2 q k = (if 0 \<le> k then real q * 2 ^ nat k else real q / 2 ^ nat (- k))"

definition round_double :: "nat \<Rightarrow> nat \<Rightarrow> jsnum" where
  "round_double num den =
     (if num = 0 then Fin 0
      else
        let e0 = int (bitlen num) - int (bitlen den);
            E = (if (if 0 \<le> e0 then den * 2 ^ nat e0 \<le> num else den \<le> num * 2 ^ nat (- e0))
                 then e0 else e0 - 1);
            k = max (E - 52) (- 1074);
            N = (if 0 \<le> k then num else num * 2 ^ nat (- k));
            D = (if 0 \<le> k then den * 2 ^ nat k else den);
            q = N div D;
            r = N mod D;
            q' = (if D < 2 * r \<or> (2 * r = D \<and> odd q) then q + 1 else q)
        in if 971 < k \<or> (k = 971 \<and> 2 ^ 53 \<le> q') then PosInf else Fin (scale2 q' k))"

definition round_decimal :: "nat \<Rightarrow> int \<Rightarrow> jsnum" where
  "round_decimal mant e =
     (if 0 \<le> e then round_double (mant * 10 ^ nat e) 1 else round_double mant (10 ^ nat (- e)))"

definition str_unsigned_decimal :: "string \<Rightarrow> jsnum" where
  "str_unsigned_decimal s =
     (if s = ''Infinity'' then PosInf
      else
        let ip = takeWhile (is_digit 10) s;
            r1 = dropWhile (is_digit 10) s;
            dot = (r1 \<noteq> [] \<and> hd r1 = CHR ''.'');
            fp = (if dot then takeWhile (is_digit 10) (tl r1) else []);
            r2 = (if dot then dropWhile (is_digit 10) (tl r1) else r1);
            mant = digits_val 10 (ip @ fp)
        in if ip = [] \<and> fp = [] then NaN
           else if r2 = [] then round_decimal mant (- int (length fp))
           else if hd r2 = CHR ''e'' \<or> hd r2 = CHR ''E'' then
             (let r3 = tl r2;
                  neg = (r3 \<noteq> [] \<and> hd r3 = CHR ''-'');
                  ds = (if r3 \<noteq> [] \<and> (hd r3 = CHR ''-'' \<or> hd r3 = CHR ''+'') then tl r3 else r3)
              in if ds \<noteq> [] \<and> list_all (is_digit 10) ds
                 then round_decimal mant
                        ((if neg then - int (digits_val 10 ds) else int (digits_val 10 ds))
                         - int (length fp))
                 else NaN)
           else NaN)"

definition str_radix :: "nat \<Rightarrow> string \<Rightarrow> jsnum" where
  "str_radix base ds =
     (if ds \<noteq> [] \<and> list_all (is_digit base) ds then round_double (digits_val base ds) 1 else NaN)"

fun neg_jsnum :: "jsnum \<Rightarrow> jsnum" where
  "neg_jsnum (Fin x) = Fin (- x)"
| "neg_jsnum NaN = NaN"
| "neg_jsnum PosInf = NegInf"
| "neg_jsnum NegInf = PosInf"

definition js_Number :: "string \<Rightarrow> jsnum" where
  "js_Number str =
     (let s = trim str in
      if s = [] then Fin 0
      else if length s \<ge> 2 \<and> hd s = CHR ''0'' \<and> to_lower (s ! 1) = CHR ''x'' then str_radix 16 (drop 2 s)
      else if length s \<ge> 2 \<and> hd s = CHR ''0'' \<and> to_lower (s ! 1) = CHR ''o'' then str_radix 8 (drop 2 s)
      else if length s \<ge> 2 \<and> hd s = CHR ''0'' \<and> to_lower (s ! 1) = CHR ''b'' then str_radix 2 (drop 2 s)
      else if hd s = CHR ''+'' then str_unsigned_decimal (tl s)
      else if hd s = CHR ''-'' then neg_jsnum (str_unsigned_decimal (tl s))
      else str_unsigned_decimal s)"

section \<open>CSV export\<close>

text \<open>
  \<^verbatim>\<open>markersToCSVString(markersArr)\<close>. \<^verbatim>\<open>s.replace(/"/g, '""')\<close> doubles every double
  quote; \<^verbatim>\<open>a.join(sep)\<close> concatenates with the separator between neighbours. A row is
  the array of the quoted title, the quoted description, the two numbers of the position
  and \<^verbatim>\<open>m.category || ""\<close>; \<^verbatim>\<open>join\<close> turns the numbers into strings with
  \<^verbatim>\<open>Number::toString\<close>, which is the parameter \<open>numToString\<close> here (the shortest decimal
  that reads back as the same double cannot be defined on the reals).
\<close>

definition double_quotes :: "string \<Rightarrow> string" where
  "double_quotes s = concat (map (\<lambda>c. if c = DQ then [DQ, DQ] else [c]) s)"

fun join :: "string \<Rightarrow> string list \<Rightarrow> string" where
  "join sep [] = []"
| "join sep [x] = x"
| "join sep (x # y # ys) = x @ sep @ join sep (y # ys)"

definition csv_headers :: "string list" where
  "csv_headers = [''Title'', ''Description'', ''Latitude'', ''Longitude'', ''Category'']"

definition csv_row :: "(real \<Rightarrow> string) \<Rightarrow> marker \<Rightarrow> string list" where
  "csv_row numToString m =
     [[DQ] @ double_quotes (title m) @ [DQ],
      [DQ] @ double_quotes (description m) @ [DQ],
      numToString (fst (position m)),
      numToString (snd (position m)),
      (case category m of None \<Rightarrow> [] | Some c \<Rightarrow> c)]"

definition markersToCSVString :: "(real \<Rightarrow> string) \<Rightarrow> marker list \<Rightarrow> string" where
  "markersToCSVString numToString markersArr =
     join [LF] (join [COMMA] csv_headers # map (\<lambda>r. join [COMMA] r) (map (csv_row numToString) markersArr))"

section \<open>CSV import\<close>

text \<open>
  \<^verbatim>\<open>text.split(/\r?\n/)\<close>: the text is cut at every line feed, and a carriage return
  right before the line feed belongs to the separator.
\<close>

fun split_lines :: "string \<Rightarrow> string list" where
  "split_lines [] = [[]]"
| "split_lines (c # cs) =
     (if c = LF then [] # split_lines cs
      else if c = CR \<and> cs \<noteq> [] \<and> hd cs = LF then [] # split_lines (tl cs)
      else (case split_lines cs of
              [] \<Rightarrow> [[c]]
            | l # ls \<Rightarrow> (c # l) # ls))"

text \<open>\<^verbatim>\<open>s.split(",")\<close>.\<close>

fun split_comma :: "string \<Rightarrow> string list" where
  "split_comma [] = [[]]"
| "split_comma (c # cs) =
     (if c = COMMA then [] # split_comma cs
      else (case split_comma cs of
              [] \<Rightarrow> [[c]]
            | l # ls \<Rightarrow> (c # l) # ls))"

text \<open>\<^verbatim>\<open>h.replace(/^"|"$/g, "")\<close>: a double quote at the start and one at the end are removed.\<close>

definition strip_quotes :: "string \<Rightarrow> string" where
  "strip_quotes h =
     (let h1 = (if h \<noteq> [] \<and> hd h = DQ then tl h else h)
      in if h1 \<noteq> [] \<and> last h1 = DQ then butlast h1 else h1)"

text \<open>
  The loop of \<^verbatim>\<open>parseCSV\<close> over the characters of a line, with its variables \<^verbatim>\<open>cur\<close>
  and \<^verbatim>\<open>inQuotes\<close>; the result is \<^verbatim>\<open>values\<close> after the final \<^verbatim>\<open>values.push(cur)\<close>.
\<close>

fun parse_fields :: "string \<Rightarrow> bool \<Rightarrow> string \<Rightarrow> string list" where
  "parse_fields cur inQuotes [] = [cur]"
| "parse_fields cur inQuotes (ch # rest) =
     (if ch = DQ \<and> rest \<noteq> [] \<and> hd rest = DQ then parse_fields (cur @ [DQ]) inQuotes (tl rest)
      else if ch = DQ then parse_fields cur (\<not> inQuotes) rest
      else if ch = COMMA \<and> \<not> inQuotes then cur # parse_fields [] inQuotes rest
      else parse_fields (cur @ [ch]) inQuotes rest)"

definition parseCSV :: "string \<Rightarrow> string list \<times> string list list" where
  "parseCSV text =
     (let lines = filter (\<lambda>l. length (trim l) > 0) (split_lines text)
      in case lines of
           [] \<Rightarrow> ([], [])
         | l0 # ls \<Rightarrow>
             (map (\<lambda>h. strip_quotes (trim h)) (split_comma l0),
              map (\<lambda>ln. map trim (parse_fields [] False ln)) ls))"

text \<open>The category table \<^verbatim>\<open>CATEGORIES\<close>: key and colour.\<close>

definition CATEGORIES :: "(string \<times> string) list" where
  "CATEGORIES =
     [(''General'', ''#3388ff''), (''Restaurant'', ''#e74c3c''), (''College'', ''#27ae60''),
      (''Event'', ''#f1c40f''), (''Shop'', ''#9b59b6'')]"

text \<open>
  \<^verbatim>\<open>headers.findIndex(p)\<close> is the first index at which \<open>p\<close> holds, \<open>None\<close> for \<^verbatim>\<open>-1\<close>.
  \<^verbatim>\<open>/^(a|b)$/i.test(h)\<close> holds when \<open>h\<close> in lower case is one of the alternatives.
  \<^verbatim>\<open>r[k]\<close> is \<^verbatim>\<open>undefined\<close> beyond the end of the row, and \<^verbatim>\<open>x || d\<close> is \<open>d\<close> when
  \<open>x\<close> is \<^verbatim>\<open>undefined\<close> or the empty string.
\<close>

fun findIndex :: "('a \<Rightarrow> bool) \<Rightarrow> 'a list \<Rightarrow> nat option" where
  "findIndex p [] = None"
| "findIndex p (x # xs) = (if p x then Some 0 else map_option Suc (findIndex p xs))"

definition test_i :: "string list \<Rightarrow> string \<Rightarrow> bool" where
  "test_i alts h = (map to_lower h \<in> set alts)"

record header_idx =
  idx_title :: "nat option"
  idx_desc :: "nat option"
  idx_lat :: "nat option"
  idx_lng :: "nat option"
  idx_cat :: "nat option"

definition header_indices :: "string list \<Rightarrow> header_idx" where
  "header_indices headers =
     \<lparr>idx_title = findIndex (test_i [''title'']) headers,
      idx_desc = findIndex (test_i [''description'', ''desc'']) headers,
      idx_lat = findIndex (test_i [''latitude'', ''lat'']) headers,
      idx_lng = findIndex (test_i [''longitude'', ''lon'', ''lng'', ''long'']) headers,
      idx_cat = findIndex (test_i [''category'', ''cat'']) headers\<rparr>"

definition row_at :: "string list \<Rightarrow> nat option \<Rightarrow> string option" where
  "row_at r k = (case k of None \<Rightarrow> None | Some n \<Rightarrow> if n < length r then Some (r ! n) else None)"

definition or_else :: "string option \<Rightarrow> string \<Rightarrow> string" where
  "or_else x d = (case x of None \<Rightarrow> d | Some v \<Rightarrow> if v = [] then d else v)"

text \<open>
  The body of \<^verbatim>\<open>rows.forEach((r, i) => ...)\<close> in \<^verbatim>\<open>onFileSelected\<close>: the error it
  pushes or the marker it pushes. \<open>ms\<close> is the \<^verbatim>\<open>markers\<close> that \<^verbatim>\<open>isDuplicate\<close> reads
  (the state of the render in which the file was chosen, the store before the import),
  \<open>now\<close> the value of \<^verbatim>\<open>Date.now()\<close> in this iteration. Nothing in the body can throw,
  so the \<^verbatim>\<open>catch\<close> with its \<^verbatim>\<open>parse error\<close> message is never entered.
\<close>

definition import_row :: "header_idx \<Rightarrow> marker list \<Rightarrow> int \<Rightarrow> string list \<Rightarrow> nat \<Rightarrow> row_error + marker" where
  "import_row idx ms now r i =
     (let title = (if idx_title idx \<noteq> None then or_else (row_at r (idx_title idx)) [] else []);
          desc = (if idx_desc idx \<noteq> None then or_else (row_at r (idx_desc idx)) [] else []);
          latRaw = row_at r (idx_lat idx);
          lngRaw = row_at r (idx_lng idx);
          cat = (if idx_cat idx \<noteq> None then or_else (row_at r (idx_cat idx)) ''General'' else ''General'')
      in if or_else latRaw [] = [] \<or> or_else lngRaw [] = [] then Inl (MissingCoordinates (i + 2))
         else
           (case checkLatLng (js_Number (or_else latRaw [])) (js_Number (or_else lngRaw [])) of
              None \<Rightarrow> Inl (InvalidCoordinates (i + 2) (or_else latRaw []) (or_else lngRaw []))
            | Some (lat, lng) \<Rightarrow>
                if isDuplicate lat lng 5 ms then Inl (DuplicateSkipped (i + 2))
                else Inr \<lparr>marker_id = now + int i,
                          position = (lat, lng),
                          title = or_else (Some title) ''Imported Marker'',
                          description = or_else (Some desc) [],
                          category = Some (if cat \<in> set (map fst CATEGORIES) then cat else ''General''),
                          image_m = None\<rparr>))"

text \<open>
  The loop itself, with the three variables \<^verbatim>\<open>imported\<close>, \<^verbatim>\<open>errors\<close> and
  \<^verbatim>\<open>newMarkers\<close> it updates; \<open>now i\<close> is the clock read in iteration \<open>i\<close>.
\<close>

record import_acc =
  imported :: nat
  errors :: "row_error list"
  newMarkers :: "marker list"

fun import_rows ::
  "header_idx \<Rightarrow> marker list \<Rightarrow> (nat \<Rightarrow> int) \<Rightarrow> nat \<Rightarrow> string list list \<Rightarrow> import_acc \<Rightarrow> import_acc" where
  "import_rows idx ms now i [] acc = acc"
| "import_rows idx ms now i (r # rs) acc =
     import_rows idx ms now (Suc i) rs
       (case import_row idx ms (now i) r i of
          Inl e \<Rightarrow> acc\<lparr>errors := errors acc @ [e]\<rparr>
        | Inr nm \<Rightarrow> acc\<lparr>newMarkers := newMarkers acc @ [nm], imported := Suc (imported acc)\<rparr>)"

definition import_file :: "(nat \<Rightarrow> int) \<Rightarrow> string \<Rightarrow> marker list \<Rightarrow> import_acc option" where
  "import_file now text ms =
     (let (headers, rows) = parseCSV text;
          idx = header_indices headers
      in if idx_lat idx = None \<or> idx_lng idx = None then None
         else Some (import_rows idx ms now 0 rows \<lparr>imported = 0, errors = [], newMarkers = []\<rparr>))"

text \<open>
  \<^verbatim>\<open>reader.onload\<close> of \<^verbatim>\<open>onFileSelected\<close> on the text of the file: the alert shown and
  the new value of \<^verbatim>\<open>markers\<close>. \<open>import_file\<close> above is its part up to the end of the
  loop (\<open>None\<close> when a required column is missing); the alert lists the first 20 errors.
\<close>

definition onFileSelected :: "(nat \<Rightarrow> int) \<Rightarrow> string \<Rightarrow> marker list \<Rightarrow> alert \<times> marker list" where
  "onFileSelected now text ms =
     (case import_file now text ms of
        None \<Rightarrow> (MissingColumns, ms)
      | Some acc \<Rightarrow> (ImportComplete (imported acc) (take 20 (errors acc)), ms @ newMarkers acc))"

text \<open>
  For stating what the loop computes: the outcome of every row in order, and the errors
  and the markers among a list of outcomes.
\<close>

fun lefts :: "('a + 'b) list \<Rightarrow> 'a list" where
  "lefts [] = []"
| "lefts (Inl a # xs) = a # lefts xs"
| "lefts (Inr b # xs) = lefts xs"

fun rights :: "('a + 'b) list \<Rightarrow> 'b list" where
  "rights [] = []"
| "rights (Inl a # xs) = rights xs"
| "rights (Inr b # xs) = b # rights xs"

definition row_outcomes :: "header_idx \<Rightarrow> marker list \<Rightarrow> (nat \<Rightarrow> int) \<Rightarrow> nat \<Rightarrow> string list list \<Rightarrow> (row_error + marker) list" where
  "row_outcomes idx ms now i rows = map (\<lambda>(k, r). import_row idx ms (now k) r k) (enumerate i rows)"

section \<open>Counting markers per category\<close>

text \<open>
  The dashboard builds \<^verbatim>\<open>counts\<close> with
  \<^verbatim>\<open>const cat = m.category || "General"; counts[cat] = (counts[cat] || 0) + 1\<close>
  and turns \<^verbatim>\<open>Object.entries(counts)\<close> into the chart data; an object lists its
  keys in the order they were first assigned (keys that are neither array indices nor
  names inherited from \<^verbatim>\<open>Object.prototype\<close>, as is the case of every category the
  component assigns). The PDF report builds
  \<^verbatim>\<open>catCounts\<close> by reducing \<^verbatim>\<open>CATEGORIES\<close> with
  \<^verbatim>\<open>acc[c.key] = markers.filter((m) => m.category === c.key).length\<close>.
\<close>

fun bump :: "string \<Rightarrow> (string \<times> nat) list \<Rightarrow> (string \<times> nat) list" where
  "bump k [] = [(k, 1)]"
| "bump k ((k', n) # rest) = (if k = k' then (k', n + 1) # rest else (k', n) # bump k rest)"

definition dashboard_counts :: "marker list \<Rightarrow> (string \<times> nat) list" where
  "dashboard_counts ms = foldl (\<lambda>counts m. bump (or_else (category m) ''General'') counts) [] ms"

definition dashboard_data :: "marker list \<Rightarrow> (string \<times> nat \<times> string) list" where
  "dashboard_data ms =
     map (\<lambda>(name, val). (name, val, or_else (map_of CATEGORIES name) ''#3388ff'')) (dashboard_counts ms)"

definition catCounts :: "marker list \<Rightarrow> (string \<times> nat) list" where
  "catCounts ms = map (\<lambda>(key, color). (key, length (filter (\<lambda>m. category m = Some key) ms))) CATEGORIES"

text \<open>The number of markers the dashboard counts under a key.\<close>

definition count_cat :: "string \<Rightarrow> marker list \<Rightarrow> nat" where
  "count_cat k ms = length (filter (\<lambda>m. or_else (category m) ''General'' = k) ms)"

section \<open>Markers that survive export and import\<close>

text \<open>
  The part of a marker that the CSV file carries, and the conditions under which the
  import reads back what the export wrote. A text field must contain a character other
  than the double quote, no line feed, and no white space at either end. A number must be
  printed by \<open>numToString\<close> with the characters of a numeric literal so that \<^verbatim>\<open>Number\<close>
  reads the same number back, which ECMAScript guarantees of \<^verbatim>\<open>Number::toString\<close> for
  every finite double. \<open>parsed_row\<close> is the row the parser is expected to return.
\<close>

definition text_safe :: "string \<Rightarrow> bool" where
  "text_safe s = ((\<exists>c \<in> set s. c \<noteq> DQ) \<and> LF \<notin> set s \<and> \<not> is_space (hd s) \<and> \<not> is_space (last s))"

definition num_safe :: "(real \<Rightarrow> string) \<Rightarrow> real \<Rightarrow> bool" where
  "num_safe numToString x =
     (numToString x \<noteq> [] \<and> set (numToString x) \<subseteq> set ''0123456789.e+-'' \<and>
      js_Number (numToString x) = Fin x)"

definition roundtrip_safe :: "(real \<Rightarrow> string) \<Rightarrow> marker \<Rightarrow> bool" where
  "roundtrip_safe numToString m =
     (text_safe (title m) \<and> text_safe (description m) \<and>
      num_safe numToString (fst (position m)) \<and> num_safe numToString (snd (position m)) \<and>
      - 90 \<le> fst (position m) \<and> fst (position m) \<le> 90 \<and>
      - 180 \<le> snd (position m) \<and> snd (position m) \<le> 180 \<and>
      category m \<in> Some ` set (map fst CATEGORIES))"

definition tuple_of :: "marker \<Rightarrow> string \<times> string \<times> real \<times> real \<times> string option" where
  "tuple_of m = (title m, description m, fst (position m), snd (position m), category m)"

definition parsed_row :: "(real \<Rightarrow> string) \<Rightarrow> marker \<Rightarrow> string list" where
  "parsed_row numToString m =
     [title m, description m, numToString (fst (position m)), numToString (snd (position m)),
      (case category m of None \<Rightarrow> [] | Some c \<Rightarrow> c)]"

section \<open>The export and the counts as the specification words them\<close>

text \<open>
  The specification's export quotes every field of a row, and its category counts of
  the markers \<^verbatim>\<open>[{category: "Shop"}, {category: "Shop"}, {category: undefined}]\<close> are
  \<^verbatim>\<open>{Shop: 2, General: 1, Restaurant: 0, College: 0, Event: 0}\<close>. Both are written down
  here to be compared with what the source computes.
\<close>

definition toCSV_spec :: "(real \<Rightarrow> string) \<Rightarrow> marker list \<Rightarrow> string" where
  "toCSV_spec numToString ms =
     join [LF] (join [COMMA] csv_headers #
       map (\<lambda>m. join [COMMA] (map (\<lambda>f. [DQ] @ double_quotes f @ [DQ])
              [title m, description m, numToString (fst (position m)), numToString (snd (position m)),
               (case category m of None \<Rightarrow> [] | Some c \<Rightarrow> c)])) ms)"

definition spec_example_counts :: "(string \<times> nat) list" where
  "spec_example_counts = [(''Shop'', 2), (''General'', 1), (''Restaurant'', 0), (''College'', 0), (''Event'', 0)]"

section \<open>Example data\<close>

definition ex_marker_a :: marker where
  "ex_marker_a = \<lparr>marker_id = 1, position = (0, 0), title = ''New Marker'', description = [],
     category = Some ''General'', image_m = None\<rparr>"

definition ex_marker_b :: marker where
  "ex_marker_b = \<lparr>marker_id = 2, position = (0, 180), title = ''Library'', description = ''Quiet'',
     category = Some ''College'', image_m = None\<rparr>"

definition ex_marker_shop :: marker where
  "ex_marker_shop = \<lparr>marker_id = 3, position = (3 / 2, 0), title = ''Corner shop'', description = ''Open late'',
     category = Some ''Shop'', image_m = None\<rparr>"

definition ex_marker_unset :: marker where
  "ex_marker_unset = \<lparr>marker_id = 4, position = (0, 3 / 2), title = ''Bench'', description = ''By the river'',
     category = None, image_m = None\<rparr>"

definition ex_marker_spaced :: marker where
  "ex_marker_spaced = ex_marker_b\<lparr>title := ''Cafe ''\<rparr>"

definition ex_marker_two_lines :: marker where
  "ex_marker_two_lines = ex_marker_b\<lparr>description := ''Quiet'' @ [LF] @ ''place''\<rparr>"

definition ex_project :: "marker list \<Rightarrow> project" where
  "ex_project ms = \<lparr>proj_name = ''Field Survey'', proj_markers = ms, proj_shapes = []\<rparr>"

definition ex_state :: "string \<Rightarrow> state" where
  "ex_state cur =
     \<lparr>savedMaps = [(''default'', ex_project [ex_marker_a]), (''map_1'', ex_project []),
                    (''map_2'', ex_project [ex_marker_b])],
      currentMap = cur, markers = [], shapes = [], stored = None\<rparr>"

text \<open>\<^verbatim>\<open>Number::toString\<close> on the coordinates of the examples, 0, 180 and 1.5.\<close>

definition ex_numToString :: "real \<Rightarrow> string" where
  "ex_numToString x = (if x = 0 then ''0'' else if x = 180 then ''180'' else ''1.5'')"

definition ex_clock :: "nat \<Rightarrow> int" where
  "ex_clock i = 1700000000000"


definition ex_csv_twice :: string where
  "ex_csv_twice = ''Latitude,Longitude'' @ [LF] @ ''10,20'' @ [LF] @ ''10,20''"


definition imported_marker :: "int \<Rightarrow> real \<times> real \<Rightarrow> string \<Rightarrow> string \<Rightarrow> marker" where
  "imported_marker i p t d =
     \<lparr>marker_id = i, position = p, title = t, description = d, category = Some ''General'', image_m = None\<rparr>"

definition ex_csv_two :: string where
  "ex_csv_two = ''Latitude,Longitude'' @ [LF] @ ''10,20'' @ [LF] @ ''30,20''"

section \<open>Properties\<close>

lemma handleTextChange_length: "length (handleTextChange i f v ms) = length ms"
  by (simp add: handleTextChange_def)

lemma set_field_marker_id: "marker_id (set_field f v m) = marker_id m"
  by (cases f) simp_all

lemma handleTextChange_ids: "map marker_id (handleTextChange i f v ms) = map marker_id ms"
  by (simp add: handleTextChange_def set_field_marker_id)

lemma handleTextChange_absent:
  "i \<notin> marker_id ` set ms \<Longrightarrow> handleTextChange i f v ms = ms"
  unfolding handleTextChange_def by (induction ms) auto

lemma set_field_other: "g \<noteq> f \<Longrightarrow> get_field g (set_field f v m) = get_field g m"
  by (cases f; cases g) simp_all

lemma set_field_same: "get_field f (set_field f v m) = Some v"
  by (cases f) simp_all

lemma set_field_position: "position (set_field f v m) = position m"
  by (cases f) simp_all

lemma set_field_image: "image_m (set_field f v m) = image_m m"
  by (cases f) simp_all

subsection \<open>Distances\<close>

text \<open>
  Both square roots of \<open>distance_m\<close> are taken of numbers between 0 and 1, whatever the
  coordinates are, so that over the reals the distance is always a number.
\<close>

lemma haversine_a_bounds:
  fixes p1 p2 dl :: real
  defines "a \<equiv> sin ((p2 - p1) / 2) * sin ((p2 - p1) / 2) + cos p1 * cos p2 * sin (dl / 2) * sin (dl / 2)"
  shows "0 \<le> a \<and> a \<le> 1"
proof -
  define s where "s = sin (dl / 2) * sin (dl / 2)"
  define cd where "cd = cos (p2 - p1)"
  define cs where "cs = cos (p2 + p1)"
  have s0: "0 \<le> s" by (simp add: s_def)
  have "cos (dl / 2) * cos (dl / 2) + s = 1"
    using sin_cos_squared_add3 [of "dl / 2"] by (simp add: s_def)
  moreover have "0 \<le> cos (dl / 2) * cos (dl / 2)" by simp
  ultimately have s1: "s \<le> 1" by linarith
  have cdb: "- 1 \<le> cd" "cd \<le> 1" and csb: "- 1 \<le> cs" "cs \<le> 1"
    by (simp_all add: cd_def cs_def)
  define w where "w = (p2 - p1) / 2"
  have "p2 - p1 = 2 * w" by (simp add: w_def)
  then have "cd = cos (2 * w)" by (simp only: cd_def)
  also have "\<dots> = 1 - 2 * (sin w)\<^sup>2" by (rule cos_double_sin)
  finally have "cd = 1 - 2 * (sin ((p2 - p1) / 2))\<^sup>2" by (simp only: w_def)
  then have h: "sin ((p2 - p1) / 2) * sin ((p2 - p1) / 2) = (1 - cd) / 2"
    by (simp add: power2_eq_square)
  have "cd + cs = 2 * (cos p1 * cos p2)"
    by (simp add: cd_def cs_def cos_add cos_diff)
  then have p: "cos p1 * cos p2 = (cd + cs) / 2" by simp
  have "a = (1 - cd) / 2 + (cd + cs) / 2 * s"
    unfolding a_def h p s_def by (simp add: mult.assoc)
  then have a: "a = (1 - (1 - s) * cd + s * cs) / 2"
    by (simp add: field_simps)
  have 1: "(1 - s) * cd \<le> (1 - s) * 1" "(1 - s) * (- 1) \<le> (1 - s) * cd"
    using s1 cdb by (intro mult_left_mono; simp)+
  have 2: "s * cs \<le> s * 1" "s * (- 1) \<le> s * cs"
    using s0 csb by (intro mult_left_mono; simp)+
  from 1 2 show ?thesis unfolding a by (simp add: algebra_simps)
qed

lemma distance_m_sqrt_args:
  "0 \<le> sin (toRad (lat2 - lat) / 2) * sin (toRad (lat2 - lat) / 2) +
        cos (toRad lat) * cos (toRad lat2) * sin (toRad (lon2 - lng) / 2) * sin (toRad (lon2 - lng) / 2) \<and>
   sin (toRad (lat2 - lat) / 2) * sin (toRad (lat2 - lat) / 2) +
        cos (toRad lat) * cos (toRad lat2) * sin (toRad (lon2 - lng) / 2) * sin (toRad (lon2 - lng) / 2) \<le> 1"
proof -
  have "toRad (lat2 - lat) = toRad lat2 - toRad lat"
    by (simp add: toRad_def algebra_simps diff_divide_distrib)
  then show ?thesis
    using haversine_a_bounds [of "toRad lat2" "toRad lat" "toRad (lon2 - lng)"] by simp
qed

lemma distance_same: "distance_m lat lng lat lng = 0"
  by (simp add: distance_m_def toRad_def atan2_def Let_def)

lemma atan2_abs_sin_cos:
  assumes "\<bar>x\<bar> < pi / 2"
  shows "atan2 (sqrt (sin x * sin x)) (sqrt (1 - sin x * sin x)) = \<bar>x\<bar>"
proof -
  have c: "0 < cos x" using assms by (intro cos_gt_zero_pi) auto
  have s: "sqrt (sin x * sin x) = \<bar>sin x\<bar>" by (metis real_sqrt_abs2)
  have "1 - sin x * sin x = cos x * cos x"
    using sin_cos_squared_add3 [of x] by (simp add: algebra_simps)
  then have cs: "sqrt (1 - sin x * sin x) = cos x"
    using c by (metis abs_of_pos real_sqrt_abs2)
  have "\<bar>sin x\<bar> = sin \<bar>x\<bar>"
  proof (cases "0 \<le> x")
    case True
    then have "0 \<le> sin x" using assms by (intro sin_ge_zero) auto
    with True show ?thesis by simp
  next
    case False
    then have "0 < sin (- x)" using assms by (intro sin_gt_zero) auto
    with False show ?thesis by simp
  qed
  then have "\<bar>sin x\<bar> / cos x = tan \<bar>x\<bar>"
    by (simp add: tan_def)
  then have "arctan (\<bar>sin x\<bar> / cos x) = \<bar>x\<bar>"
    using assms by (simp add: arctan_tan)
  then show ?thesis using c by (simp add: atan2_def s cs)
qed

lemma distance_meridian:
  assumes "\<bar>lat2 - lat\<bar> < 180"
  shows "distance_m lat lng lat2 lng = 6371000 * \<bar>toRad (lat2 - lat)\<bar>"
proof -
  have "\<bar>lat2 - lat\<bar> * pi < 180 * pi"
    using assms pi_gt_zero by (intro mult_strict_right_mono)
  then have "\<bar>toRad (lat2 - lat) / 2\<bar> < pi / 2"
    by (simp add: toRad_def abs_mult)
  from atan2_abs_sin_cos [OF this] show ?thesis
    by (simp add: distance_m_def Let_def toRad_def)
qed

lemma distance_meridian_far:
  assumes "\<bar>lat2 - lat\<bar> < 180" "1 \<le> \<bar>lat2 - lat\<bar>"
  shows "\<not> distance_m lat lng lat2 lng \<le> 5"
proof -
  have "1 * 2 \<le> \<bar>lat2 - lat\<bar> * pi"
    using assms(2) pi_ge_two by (intro mult_mono) auto
  then have "5 < 6371000 * \<bar>toRad (lat2 - lat)\<bar>"
    by (simp add: toRad_def abs_mult mult.commute)
  with distance_meridian [OF assms(1), of lng] show ?thesis by simp
qed

subsection \<open>The import loop\<close>


lemma import_rows_acc:
  "import_rows idx ms now i rows acc =
     \<lparr>imported = imported acc + length (rights (row_outcomes idx ms now i rows)),
      errors = errors acc @ lefts (row_outcomes idx ms now i rows),
      newMarkers = newMarkers acc @ rights (row_outcomes idx ms now i rows)\<rparr>"
proof (induction rows arbitrary: i acc)
  case Nil
  then show ?case by (simp add: row_outcomes_def)
next
  case (Cons r rs)
  show ?case
  proof (cases "import_row idx ms (now i) r i")
    case (Inl e)
    then show ?thesis by (simp add: Cons.IH) (simp add: row_outcomes_def)
  next
    case (Inr nm)
    then show ?thesis by (simp add: Cons.IH) (simp add: row_outcomes_def)
  qed
qed


lemma import_row_good:
  assumes "row_at r (idx_lat idx) = Some la" "la \<noteq> []"
    and "row_at r (idx_lng idx) = Some lo" "lo \<noteq> []"
    and "checkLatLng (js_Number la) (js_Number lo) = Some (x, y)"
    and "\<not> isDuplicate x y 5 ms"
  shows "import_row idx ms now r i =
     Inr \<lparr>marker_id = now + int i, position = (x, y),
          title = or_else (Some (or_else (row_at r (idx_title idx)) [])) ''Imported Marker'',
          description = or_else (row_at r (idx_desc idx)) [],
          category = Some (if or_else (row_at r (idx_cat idx)) ''General'' \<in> set (map fst CATEGORIES)
                           then or_else (row_at r (idx_cat idx)) ''General'' else ''General''),
          image_m = None\<rparr>"
  using assms
  by (auto simp: import_row_def Let_def or_else_def row_at_def split: option.splits)



subsection \<open>Counting\<close>

lemma map_of_bump:
  "map_of (bump k c) = (map_of c)(k \<mapsto> (case map_of c k of None \<Rightarrow> 1 | Some n \<Rightarrow> n + 1))"
  by (induction c) (auto simp: fun_eq_iff)

lemma keys_bump: "fst ` set (bump k c) = insert k (fst ` set c)"
proof -
  have "dom (map_of (bump k c)) = insert k (dom (map_of c))"
    by (simp add: map_of_bump)
  then show ?thesis by (simp add: dom_map_of_conv_image_fst)
qed

lemma distinct_bump: "distinct (map fst c) \<Longrightarrow> distinct (map fst (bump k c))"
  by (induction c) (auto simp: keys_bump)

lemma foldl_bump:
  "map_of (foldl (\<lambda>counts m. bump (or_else (category m) ''General'') counts) c ms) k =
     (if count_cat k ms = 0 then map_of c k
      else Some (count_cat k ms + (case map_of c k of None \<Rightarrow> 0 | Some n \<Rightarrow> n)))"
proof (induction ms arbitrary: c)
  case Nil
  then show ?case by (simp add: count_cat_def)
next
  case (Cons m ms)
  show ?case
    by (simp add: Cons.IH map_of_bump) (auto simp: count_cat_def split: option.splits)
qed

lemma foldl_bump_distinct:
  "distinct (map fst c) \<Longrightarrow>
   distinct (map fst (foldl (\<lambda>counts m. bump (or_else (category m) ''General'') counts) c ms))"
  by (induction ms arbitrary: c) (simp_all add: distinct_bump)

subsection \<open>Evaluating the examples\<close>

lemma bitlen_numeral [simp]:
  "bitlen 0 = 0" "bitlen (Suc 0) = Suc 0" "bitlen 1 = 1"
  "bitlen (numeral n) = Suc (bitlen (numeral n div 2))"
  by (simp_all add: bitlen.simps)

lemmas number_parse = js_Number_def trim_def is_space_def str_unsigned_decimal_def str_radix_def
  is_digit_def digit_of_def digits_val_def to_lower_def Let_def

lemmas number_round = round_decimal_def round_double_def scale2_def Let_def

lemma js_Number_examples:
  "js_Number ''10'' = Fin 10" "js_Number ''20'' = Fin 20" "js_Number ''30'' = Fin 30"
  "js_Number ''40'' = Fin 40" "js_Number ''95'' = Fin 95" "js_Number ''abc'' = NaN"
  by (simp_all add: number_parse) (simp_all add: number_round)


lemma parseCSV_ex_csv_twice:
  "parseCSV ex_csv_twice = ([''Latitude'', ''Longitude''], [[''10'', ''20''], [''10'', ''20'']])"
  by (simp add: ex_csv_twice_def parseCSV_def trim_def is_space_def strip_quotes_def)


lemma header_indices_examples:
  "header_indices [''Title'', ''Latitude'', ''Longitude''] =
     \<lparr>idx_title = Some 0, idx_desc = None, idx_lat = Some 1, idx_lng = Some 2, idx_cat = None\<rparr>"
  "header_indices [''Latitude'', ''Longitude''] =
     \<lparr>idx_title = None, idx_desc = None, idx_lat = Some 0, idx_lng = Some 1, idx_cat = None\<rparr>"
  "header_indices [''Title'', ''Description'', ''Latitude'', ''Longitude''] =
     \<lparr>idx_title = Some 0, idx_desc = Some 1, idx_lat = Some 2, idx_lng = Some 3, idx_cat = None\<rparr>"
  by (simp_all add: header_indices_def test_i_def to_lower_def)

lemmas import_eval = import_file_def import_row_def row_at_def or_else_def CATEGORIES_def
  js_Number_examples header_indices_examples

lemma parseCSV_ex_csv_two:
  "parseCSV ex_csv_two = ([''Latitude'', ''Longitude''], [[''10'', ''20''], [''30'', ''20'']])"
  by (simp add: ex_csv_two_def parseCSV_def trim_def is_space_def strip_quotes_def)


lemma onFileSelected_ex_csv_two:
  "snd (onFileSelected ex_clock ex_csv_two []) =
     [imported_marker 1700000000000 (10, 20) ''Imported Marker'' [],
      imported_marker 1700000000001 (30, 20) ''Imported Marker'' []]"
  by (simp add: onFileSelected_def import_eval parseCSV_ex_csv_two ex_clock_def imported_marker_def)

subsection \<open>Reading back an exported file\<close>

lemma double_quotes_Cons:
  "double_quotes (c # s) = (if c = DQ then [DQ, DQ] else [c]) @ double_quotes s"
  by (simp add: double_quotes_def)

lemma double_quotes_Nil: "double_quotes [] = []"
  by (simp add: double_quotes_def)

lemma parse_fields_in_quotes:
  assumes "tail = [] \<or> hd tail \<noteq> DQ"
  shows "parse_fields cur True (double_quotes s @ DQ # tail) = parse_fields (cur @ s) False tail"
  using assms
proof (induction s arbitrary: cur)
  case Nil
  then show ?case by (auto simp: double_quotes_Nil)
next
  case (Cons c s)
  show ?case
  proof (cases "c = DQ")
    case True
    then show ?thesis using Cons.IH [OF Cons.prems, of "cur @ [DQ]"]
      by (simp add: double_quotes_Cons)
  next
    case False
    then show ?thesis using Cons.IH [OF Cons.prems, of "cur @ [c]"]
      by (simp add: double_quotes_Cons)
  qed
qed

lemma parse_fields_quoted:
  assumes "\<exists>c \<in> set s. c \<noteq> DQ" and "tail = [] \<or> hd tail \<noteq> DQ"
  shows "parse_fields cur False (DQ # double_quotes s @ DQ # tail) = parse_fields (cur @ s) False tail"
  using assms
proof (induction s arbitrary: cur)
  case Nil
  then show ?case by simp
next
  case (Cons c s)
  show ?case
  proof (cases "c = DQ")
    case True
    with Cons.prems have "\<exists>c \<in> set s. c \<noteq> DQ" by auto
    from Cons.IH [OF this Cons.prems(2), of "cur @ [DQ]"] True show ?thesis
      by (simp add: double_quotes_Cons)
  next
    case False
    have "parse_fields cur False (DQ # double_quotes (c # s) @ DQ # tail) =
          parse_fields cur True (double_quotes (c # s) @ DQ # tail)"
      using False by (simp add: double_quotes_Cons)
    then show ?thesis
      by (simp add: parse_fields_in_quotes [OF Cons.prems(2)])
  qed
qed

lemma parse_fields_bare:
  assumes "DQ \<notin> set s" "COMMA \<notin> set s"
  shows "parse_fields cur False (s @ tail) = parse_fields (cur @ s) False tail"
  using assms by (induction s arbitrary: cur) auto

lemma parse_fields_comma: "parse_fields cur False (COMMA # rest) = cur # parse_fields [] False rest"
  by simp

lemma parse_fields_row:
  assumes "\<exists>c \<in> set t. c \<noteq> DQ" "\<exists>c \<in> set d. c \<noteq> DQ"
    and "DQ \<notin> set la" "COMMA \<notin> set la" "DQ \<notin> set lo" "COMMA \<notin> set lo"
    and "DQ \<notin> set cat" "COMMA \<notin> set cat"
  shows "parse_fields [] False
           (join [COMMA] [[DQ] @ double_quotes t @ [DQ], [DQ] @ double_quotes d @ [DQ], la, lo, cat])
         = [t, d, la, lo, cat]"
proof -
  have tl: "COMMA # rest = [] \<or> hd (COMMA # rest) \<noteq> DQ" for rest by simp
  have "parse_fields [] False
           (join [COMMA] [[DQ] @ double_quotes t @ [DQ], [DQ] @ double_quotes d @ [DQ], la, lo, cat]) =
        parse_fields [] False
           (DQ # double_quotes t @ DQ # COMMA # DQ # double_quotes d @ DQ # COMMA # la @ COMMA # lo @ COMMA # cat @ [])"
    by simp
  also have "\<dots> = t # parse_fields [] False
           (DQ # double_quotes d @ DQ # COMMA # la @ COMMA # lo @ COMMA # cat @ [])"
    by (simp only: parse_fields_quoted [OF assms(1) tl] parse_fields_comma append_Nil)
  also have "\<dots> = t # d # parse_fields [] False (la @ COMMA # lo @ COMMA # cat @ [])"
    by (simp only: parse_fields_quoted [OF assms(2) tl] parse_fields_comma append_Nil)
  also have "\<dots> = t # d # la # parse_fields [] False (lo @ COMMA # cat @ [])"
    by (simp only: parse_fields_bare [OF assms(3,4)] parse_fields_comma append_Nil)
  also have "\<dots> = t # d # la # lo # parse_fields [] False (cat @ [])"
    by (simp only: parse_fields_bare [OF assms(5,6)] parse_fields_comma append_Nil)
  also have "\<dots> = [t, d, la, lo, cat]"
    by (simp only: parse_fields_bare [OF assms(7,8)] parse_fields.simps append_Nil)
  finally show ?thesis .
qed

lemma trim_id:
  assumes "s = [] \<or> (\<not> is_space (hd s) \<and> \<not> is_space (last s))"
  shows "trim s = s"
proof (cases s)
  case Nil
  then show ?thesis by (simp add: trim_def)
next
  case (Cons c cs)
  with assms have h: "\<not> is_space (hd s)" and l: "\<not> is_space (last s)" by auto
  from h Cons have 1: "dropWhile is_space s = s" by simp
  have "s \<noteq> []" using Cons by simp
  then have "hd (rev s) = last s" by (simp only: hd_rev)
  with l have "\<not> is_space (hd (rev s))" by simp
  with \<open>s \<noteq> []\<close> have 2: "dropWhile is_space (rev s) = rev s" by (cases "rev s") auto
  show ?thesis by (simp add: trim_def 1 2)
qed

lemma trim_nonempty:
  assumes "s \<noteq> []" "\<not> is_space (hd s)"
  shows "trim s \<noteq> []"
proof -
  from assms have 1: "dropWhile is_space s = s" by (cases s) auto
  have "hd s \<in> set (rev s)" using assms(1) by simp
  with assms(2) have "dropWhile is_space (rev s) \<noteq> []"
    by (metis dropWhile_eq_Nil_conv)
  then show ?thesis by (simp add: trim_def 1)
qed

lemma split_lines_last:
  assumes "LF \<notin> set l"
  shows "split_lines l = [l]"
  using assms
proof (induction l)
  case Nil
  then show ?case by simp
next
  case (Cons c l)
  then have "\<not> (l \<noteq> [] \<and> hd l = LF)" by (cases l) auto
  with Cons show ?case by auto
qed

lemma split_lines_line:
  assumes "LF \<notin> set l" "l = [] \<or> last l \<noteq> CR"
  shows "split_lines (l @ LF # rest) = l # split_lines rest"
  using assms
proof (induction l)
  case Nil
  then show ?case by simp
next
  case (Cons c l)
  show ?case
  proof (cases l)
    case Nil
    with Cons.prems show ?thesis by auto
  next
    case (Cons d l')
    with Cons.prems Cons.IH show ?thesis by auto
  qed
qed

lemma split_lines_join:
  assumes "\<forall>l \<in> set (l0 # ls). LF \<notin> set l \<and> (l = [] \<or> last l \<noteq> CR)"
  shows "split_lines (join [LF] (l0 # ls)) = l0 # ls"
  using assms
proof (induction ls arbitrary: l0)
  case Nil
  then show ?case by (simp add: split_lines_last)
next
  case (Cons l ls)
  then have "split_lines (join [LF] (l # ls)) = l # ls" by simp
  with Cons.prems show ?case by (simp add: split_lines_line)
qed

lemma set_double_quotes: "set (double_quotes s) = set s"
  by (induction s) (auto simp: double_quotes_Cons double_quotes_Nil)

lemma num_chars:
  assumes "c \<in> set ''0123456789.e+-''"
  shows "\<not> is_space c \<and> c \<noteq> DQ \<and> c \<noteq> COMMA \<and> c \<noteq> LF \<and> c \<noteq> CR"
  using assms by (auto simp: is_space_def)

lemma num_safe_facts:
  assumes "num_safe nts x"
  shows "DQ \<notin> set (nts x)" "COMMA \<notin> set (nts x)" "LF \<notin> set (nts x)"
    "trim (nts x) = nts x" "nts x \<noteq> []" "js_Number (nts x) = Fin x"
proof -
  from assms have ne: "nts x \<noteq> []" and sub: "set (nts x) \<subseteq> set ''0123456789.e+-''"
    and n: "js_Number (nts x) = Fin x"
    by (simp_all add: num_safe_def)
  show "nts x \<noteq> []" by (rule ne)
  show "js_Number (nts x) = Fin x" by (rule n)
  show "DQ \<notin> set (nts x)" "COMMA \<notin> set (nts x)" "LF \<notin> set (nts x)"
    using sub num_chars by blast+
  have "hd (nts x) \<in> set (nts x)" "last (nts x) \<in> set (nts x)" using ne by simp_all
  then have "\<not> is_space (hd (nts x))" "\<not> is_space (last (nts x))"
    using sub num_chars by blast+
  then show "trim (nts x) = nts x" by (simp add: trim_id)
qed

lemma category_facts:
  assumes "c \<in> set (map fst CATEGORIES)"
  shows "DQ \<notin> set c" "COMMA \<notin> set c" "LF \<notin> set c" "trim c = c" "c \<noteq> []" "last c \<noteq> CR"
  using assms by (auto simp: CATEGORIES_def trim_def is_space_def)

lemma text_safe_facts:
  assumes "text_safe s"
  shows "\<exists>c \<in> set s. c \<noteq> DQ" "LF \<notin> set s" "trim s = s" "s \<noteq> []"
  using assms by (auto simp: text_safe_def trim_id)

lemma join_row:
  "join [COMMA] (csv_row nts m) =
     DQ # double_quotes (title m) @ DQ # COMMA # DQ # double_quotes (description m) @ DQ # COMMA #
     nts (fst (position m)) @ COMMA # nts (snd (position m)) @ COMMA #
     (case category m of None \<Rightarrow> [] | Some c \<Rightarrow> c)"
  by (simp add: csv_row_def)

lemma row_parsed:
  assumes "roundtrip_safe nts m"
  shows "map trim (parse_fields [] False (join [COMMA] (csv_row nts m))) = parsed_row nts m"
proof -
  from assms obtain c where c: "category m = Some c" "c \<in> set (map fst CATEGORIES)"
    by (auto simp: roundtrip_safe_def)
  from assms have t: "text_safe (title m)" and d: "text_safe (description m)"
    and la: "num_safe nts (fst (position m))" and lo: "num_safe nts (snd (position m))"
    by (simp_all add: roundtrip_safe_def)
  have "parse_fields [] False (join [COMMA] (csv_row nts m)) = parsed_row nts m"
    unfolding csv_row_def parsed_row_def c option.case
    by (rule parse_fields_row)
       (use text_safe_facts [OF t] text_safe_facts [OF d] num_safe_facts [OF la] num_safe_facts [OF lo]
          category_facts [OF c(2)] in auto)
  moreover have "map trim (parsed_row nts m) = parsed_row nts m"
    using text_safe_facts [OF t] text_safe_facts [OF d] num_safe_facts [OF la] num_safe_facts [OF lo]
      category_facts [OF c(2)]
    by (simp add: parsed_row_def c)
  ultimately show ?thesis by simp
qed

lemma row_line:
  assumes "roundtrip_safe nts m"
  shows "LF \<notin> set (join [COMMA] (csv_row nts m))"
    and "last (join [COMMA] (csv_row nts m)) \<noteq> CR"
    and "length (trim (join [COMMA] (csv_row nts m))) > 0"
proof -
  from assms obtain c where c: "category m = Some c" "c \<in> set (map fst CATEGORIES)"
    by (auto simp: roundtrip_safe_def)
  from assms have t: "text_safe (title m)" and d: "text_safe (description m)"
    and la: "num_safe nts (fst (position m))" and lo: "num_safe nts (snd (position m))"
    by (simp_all add: roundtrip_safe_def)
  show "LF \<notin> set (join [COMMA] (csv_row nts m))"
    using text_safe_facts [OF t] text_safe_facts [OF d] num_safe_facts [OF la] num_safe_facts [OF lo]
      category_facts [OF c(2)]
    by (simp add: join_row c set_double_quotes)
  show "last (join [COMMA] (csv_row nts m)) \<noteq> CR"
    using category_facts [OF c(2)] by (simp add: join_row c)
  have "trim (join [COMMA] (csv_row nts m)) \<noteq> []"
    by (rule trim_nonempty) (simp_all add: join_row is_space_def)
  then show "length (trim (join [COMMA] (csv_row nts m))) > 0" by simp
qed

lemma header_line:
  "split_comma (join [COMMA] csv_headers) = csv_headers"
  "map (\<lambda>h. strip_quotes (trim h)) csv_headers = csv_headers"
  "LF \<notin> set (join [COMMA] csv_headers)" "last (join [COMMA] csv_headers) \<noteq> CR"
  "length (trim (join [COMMA] csv_headers)) > 0"
  by (simp_all add: csv_headers_def trim_def is_space_def strip_quotes_def)

lemma header_indices_csv_headers:
  "header_indices csv_headers =
     \<lparr>idx_title = Some 0, idx_desc = Some 1, idx_lat = Some 2, idx_lng = Some 3, idx_cat = Some 4\<rparr>"
  by (simp add: csv_headers_def header_indices_def test_i_def to_lower_def)

lemma parseCSV_export:
  assumes "\<forall>m \<in> set ms. roundtrip_safe nts m"
  shows "parseCSV (markersToCSVString nts ms) = (csv_headers, map (parsed_row nts) ms)"
proof -
  let ?h = "join [COMMA] csv_headers"
  let ?rows = "map (\<lambda>r. join [COMMA] r) (map (csv_row nts) ms)"
  have lines: "\<forall>l \<in> set (?h # ?rows). LF \<notin> set l \<and> (l = [] \<or> last l \<noteq> CR)"
    using assms row_line(1,2) header_line(3,4) by auto
  have sp: "split_lines (markersToCSVString nts ms) = ?h # ?rows"
    unfolding markersToCSVString_def by (rule split_lines_join [OF lines])
  have keep: "filter (\<lambda>l. length (trim l) > 0) (?h # ?rows) = ?h # ?rows"
    using assms row_line(3) header_line(5) by (auto simp: filter_id_conv simp del: length_greater_0_conv)
  have rows: "map (\<lambda>ln. map trim (parse_fields [] False ln)) ?rows = map (parsed_row nts) ms"
    using assms by (auto simp: row_parsed)
  have "parseCSV (markersToCSVString nts ms) =
          (map (\<lambda>h. strip_quotes (trim h)) (split_comma ?h),
           map (\<lambda>ln. map trim (parse_fields [] False ln)) ?rows)"
    unfolding parseCSV_def sp Let_def keep by (simp only: list.case)
  then show ?thesis
    by (simp only: header_line(1,2) rows)
qed

lemma import_parsed_row:
  assumes "roundtrip_safe nts m"
  shows "import_row (header_indices csv_headers) [] now (parsed_row nts m) i =
           Inr (m\<lparr>marker_id := now + int i, image_m := None\<rparr>)"
proof -
  let ?idx = "header_indices csv_headers"
  let ?r = "parsed_row nts m"
  from assms obtain c where c: "category m = Some c" "c \<in> set (map fst CATEGORIES)"
    by (auto simp: roundtrip_safe_def)
  from assms have t: "text_safe (title m)" and d: "text_safe (description m)"
    and la: "num_safe nts (fst (position m))" and lo: "num_safe nts (snd (position m))"
    and rng: "- 90 \<le> fst (position m)" "fst (position m) \<le> 90"
      "- 180 \<le> snd (position m)" "snd (position m) \<le> 180"
    by (simp_all add: roundtrip_safe_def)
  have 1: "row_at ?r (idx_lat ?idx) = Some (nts (fst (position m)))"
    and 2: "row_at ?r (idx_lng ?idx) = Some (nts (snd (position m)))"
    and 3: "row_at ?r (idx_title ?idx) = Some (title m)"
    and 4: "row_at ?r (idx_desc ?idx) = Some (description m)"
    and 5: "row_at ?r (idx_cat ?idx) = Some c"
    by (simp_all add: header_indices_csv_headers parsed_row_def row_at_def c)
  have 6: "checkLatLng (js_Number (nts (fst (position m)))) (js_Number (nts (snd (position m))))
        = Some (fst (position m), snd (position m))"
    using rng by (simp add: num_safe_facts(6) [OF la] num_safe_facts(6) [OF lo])
  have 7: "\<not> isDuplicate (fst (position m)) (snd (position m)) 5 []" by simp
  from import_row_good [OF 1 num_safe_facts(5) [OF la] 2 num_safe_facts(5) [OF lo] 6 7, of now i]
  show ?thesis
    using text_safe_facts(4) [OF t] category_facts(5) [OF c(2)] c
    by (simp add: 3 4 5 or_else_def)
qed

lemma row_outcomes_export:
  assumes "\<forall>m \<in> set ms. roundtrip_safe nts m"
  shows "row_outcomes (header_indices csv_headers) [] now i (map (parsed_row nts) ms) =
           map (\<lambda>(k, m). Inr (m\<lparr>marker_id := now k + int k, image_m := None\<rparr>)) (enumerate i ms)"
  using assms
  by (induction ms arbitrary: i) (simp_all add: row_outcomes_def import_parsed_row)

lemma rights_Inr: "rights (map (\<lambda>(k, m). Inr (f k m)) xs) = map (\<lambda>(k, m). f k m) xs"
  by (induction xs) auto

lemma lefts_Inr: "lefts (map (\<lambda>(k, m). Inr (f k m)) xs) = []"
  by (induction xs) auto

lemma js_Number_coords:
  "js_Number ''0'' = Fin 0" "js_Number ''180'' = Fin 180" "js_Number ''1.5'' = Fin (3 / 2)"
  by (simp_all add: number_parse) (simp_all add: number_round)

lemma export_ex_marker_a:
  "markersToCSVString ex_numToString [ex_marker_a] =
     ''Title,Description,Latitude,Longitude,Category'' @ [LF, DQ] @ ''New Marker'' @ [DQ, COMMA, DQ, DQ] @
     '',0,0,General''"
  by (simp add: markersToCSVString_def csv_headers_def csv_row_def double_quotes_def
      ex_marker_a_def ex_numToString_def)

lemma export_ex_marker_spaced:
  "markersToCSVString ex_numToString [ex_marker_spaced] =
     ''Title,Description,Latitude,Longitude,Category'' @ [LF, DQ] @ ''Cafe '' @ [DQ, COMMA, DQ] @ ''Quiet'' @ [DQ] @
     '',0,180,College''"
  by (simp add: markersToCSVString_def csv_headers_def csv_row_def double_quotes_def
      ex_marker_b_def ex_marker_spaced_def ex_numToString_def)

lemma export_ex_marker_two_lines:
  "markersToCSVString ex_numToString [ex_marker_two_lines] =
     ''Title,Description,Latitude,Longitude,Category'' @ [LF, DQ] @ ''Library'' @ [DQ, COMMA, DQ] @ ''Quiet'' @ [LF] @
     ''place'' @ [DQ] @ '',0,180,College''"
  by (simp add: markersToCSVString_def csv_headers_def csv_row_def double_quotes_def
      ex_marker_b_def ex_marker_two_lines_def ex_numToString_def)

lemma export_ex_marker_unset:
  "markersToCSVString ex_numToString [ex_marker_unset] =
     ''Title,Description,Latitude,Longitude,Category'' @ [LF, DQ] @ ''Bench'' @ [DQ, COMMA, DQ] @
     ''By the river'' @ [DQ] @ '',0,1.5,''"
  by (simp add: markersToCSVString_def csv_headers_def csv_row_def double_quotes_def
      ex_marker_unset_def ex_numToString_def)

lemma parseCSV_ex_marker_unset:
  "parseCSV (markersToCSVString ex_numToString [ex_marker_unset]) =
     (csv_headers, [[''Bench'', ''By the river'', ''0'', ''1.5'', []]])"
  by (simp add: export_ex_marker_unset parseCSV_def trim_def is_space_def strip_quotes_def csv_headers_def)

lemma parseCSV_ex_marker_a:
  "parseCSV (markersToCSVString ex_numToString [ex_marker_a]) =
     (csv_headers, [[''New Marker'', [DQ], ''0'', ''0'', ''General'']])"
  by (simp add: export_ex_marker_a parseCSV_def trim_def is_space_def strip_quotes_def csv_headers_def)

lemma parseCSV_ex_marker_spaced:
  "parseCSV (markersToCSVString ex_numToString [ex_marker_spaced]) =
     (csv_headers, [[''Cafe'', ''Quiet'', ''0'', ''180'', ''College'']])"
  by (simp add: export_ex_marker_spaced parseCSV_def trim_def is_space_def strip_quotes_def csv_headers_def)

lemma parseCSV_ex_marker_two_lines:
  "parseCSV (markersToCSVString ex_numToString [ex_marker_two_lines]) =
     (csv_headers, [[''Library'', ''Quiet''], [''place,0,180,College'']])"
  by (simp add: export_ex_marker_two_lines parseCSV_def trim_def is_space_def strip_quotes_def csv_headers_def)

subsection \<open>Field update (C10)\<close>

text \<open>
  C10. Editing a field keeps the number and the order of the markers; a marker whose id
  differs from the given one is left as it is; in a marker with the given id the named
  field becomes the new value and the id, the position, the image and the other two
  editable fields keep their values; when no marker has the id, the list is unchanged.
\<close>

theorem handleTextChange_frame:
  "length (handleTextChange i f v ms) = length ms \<and>
   (\<forall>k < length ms.
      marker_id (handleTextChange i f v ms ! k) = marker_id (ms ! k) \<and>
      position (handleTextChange i f v ms ! k) = position (ms ! k) \<and>
      image_m (handleTextChange i f v ms ! k) = image_m (ms ! k) \<and>
      (\<forall>g. g \<noteq> f \<longrightarrow> get_field g (handleTextChange i f v ms ! k) = get_field g (ms ! k)) \<and>
      (marker_id (ms ! k) = i \<longrightarrow> get_field f (handleTextChange i f v ms ! k) = Some v) \<and>
      (marker_id (ms ! k) \<noteq> i \<longrightarrow> handleTextChange i f v ms ! k = ms ! k)) \<and>
   (i \<notin> marker_id ` set ms \<longrightarrow> handleTextChange i f v ms = ms)"
proof (intro conjI allI impI)
  show "length (handleTextChange i f v ms) = length ms"
    by (rule handleTextChange_length)
next
  assume "i \<notin> marker_id ` set ms"
  then show "handleTextChange i f v ms = ms"
    by (rule handleTextChange_absent)
next
  fix k assume k: "k < length ms"
  then have nth: "handleTextChange i f v ms ! k =
      (if marker_id (ms ! k) = i then set_field f v (ms ! k) else ms ! k)"
    by (simp add: handleTextChange_def)
  show "marker_id (handleTextChange i f v ms ! k) = marker_id (ms ! k)"
    by (simp add: nth set_field_marker_id)
  show "position (handleTextChange i f v ms ! k) = position (ms ! k)"
    by (simp add: nth set_field_position)
  show "image_m (handleTextChange i f v ms ! k) = image_m (ms ! k)"
    by (simp add: nth set_field_image)
  show "get_field g (handleTextChange i f v ms ! k) = get_field g (ms ! k)" if "g \<noteq> f" for g
    using that by (simp add: nth set_field_other)
  show "get_field f (handleTextChange i f v ms ! k) = Some v" if "marker_id (ms ! k) = i"
    using that by (simp add: nth set_field_same)
  show "handleTextChange i f v ms ! k = ms ! k" if "marker_id (ms ! k) \<noteq> i"
    using that by (simp add: nth)
qed

theorem handleTextChange_frame_witness:
  "handleTextChange 2 Title ''Cafe'' [ex_marker_a, ex_marker_b] ! 0 = ex_marker_a \<and>
   get_field Title (handleTextChange 2 Title ''Cafe'' [ex_marker_a, ex_marker_b] ! 1) = Some ''Cafe'' \<and>
   get_field Description (handleTextChange 2 Title ''Cafe'' [ex_marker_a, ex_marker_b] ! 1) = Some ''Quiet'' \<and>
   handleTextChange 7 Title ''Cafe'' [ex_marker_a, ex_marker_b] = [ex_marker_a, ex_marker_b]"
proof -
  let ?ms = "[ex_marker_a, ex_marker_b]"
  note th = handleTextChange_frame [of 2 Title "''Cafe''" ?ms]
  note th7 = handleTextChange_frame [of 7 Title "''Cafe''" ?ms]
  have k0: "(0::nat) < length ?ms" and k1: "(1::nat) < length ?ms" by simp_all
  have a: "marker_id (?ms ! 0) \<noteq> 2" by (simp add: ex_marker_a_def)
  have b: "marker_id (?ms ! 1) = 2" by (simp add: ex_marker_b_def)
  have d: "Description \<noteq> Title" by simp
  have n: "7 \<notin> marker_id ` set ?ms" by (simp add: ex_marker_a_def ex_marker_b_def)
  from th k0 a have 1: "handleTextChange 2 Title ''Cafe'' ?ms ! 0 = ex_marker_a" by auto
  from th k1 b have 2: "get_field Title (handleTextChange 2 Title ''Cafe'' ?ms ! 1) = Some ''Cafe''"
    by blast
  from th k1 d have "get_field Description (handleTextChange 2 Title ''Cafe'' ?ms ! 1)
      = get_field Description (?ms ! 1)" by blast
  then have 3: "get_field Description (handleTextChange 2 Title ''Cafe'' ?ms ! 1) = Some ''Quiet''"
    by (simp add: ex_marker_b_def)
  from th7 n have 4: "handleTextChange 7 Title ''Cafe'' ?ms = ?ms" by blast
  from 1 2 3 4 show ?thesis by blast
qed

subsection \<open>Deleting a map (C7)\<close>

text \<open>
  C7. Deleting while the current map is the reserved key \<^verbatim>\<open>"default"\<close> shows the
  protected-map alert and changes nothing, whatever the answer to the confirmation.
  For any other current map, a confirmed delete removes exactly that entry, writes the
  result to storage and makes the first remaining key current, or \<^verbatim>\<open>"default"\<close> when
  no key remains (or when the first key is the empty string, which no key made by the
  component is); a declined confirmation changes nothing.
\<close>

theorem handleDeleteMap_spec:
  "(currentMap st = ''default'' \<longrightarrow> handleDeleteMap confirm st = (Some CantDeleteDefault, st)) \<and>
   (currentMap st \<noteq> ''default'' \<longrightarrow>
      handleDeleteMap False st = (None, st) \<and>
      fst (handleDeleteMap True st) = None \<and>
      savedMaps (snd (handleDeleteMap True st)) = filter (\<lambda>e. fst e \<noteq> currentMap st) (savedMaps st) \<and>
      currentMap st \<notin> fst ` set (savedMaps (snd (handleDeleteMap True st))) \<and>
      stored (snd (handleDeleteMap True st)) = Some (savedMaps (snd (handleDeleteMap True st))) \<and>
      currentMap (snd (handleDeleteMap True st)) =
        (case filter (\<lambda>k. k \<noteq> currentMap st) (map fst (savedMaps st)) of
           [] \<Rightarrow> ''default''
         | k # _ \<Rightarrow> if k = [] then ''default'' else k))"
  by (auto simp: handleDeleteMap_def Let_def delete_key_def first_key_or_default_def filter_map comp_def
      split: list.splits)

theorem handleDeleteMap_spec_witness:
  "handleDeleteMap True (ex_state ''default'') = (Some CantDeleteDefault, ex_state ''default'') \<and>
   savedMaps (snd (handleDeleteMap True (ex_state ''map_1''))) =
     [(''default'', ex_project [ex_marker_a]), (''map_2'', ex_project [ex_marker_b])] \<and>
   currentMap (snd (handleDeleteMap True (ex_state ''map_1''))) = ''default''"
proof -
  have c0: "currentMap (ex_state ''default'') = ''default''" by (simp add: ex_state_def)
  have c1: "currentMap (ex_state ''map_1'') \<noteq> ''default''" by (simp add: ex_state_def)
  from handleDeleteMap_spec [of "ex_state ''default''" True] c0
  have 1: "handleDeleteMap True (ex_state ''default'') = (Some CantDeleteDefault, ex_state ''default'')"
    by blast
  from handleDeleteMap_spec [of "ex_state ''map_1''" True] c1
  have "savedMaps (snd (handleDeleteMap True (ex_state ''map_1''))) =
          filter (\<lambda>e. fst e \<noteq> currentMap (ex_state ''map_1'')) (savedMaps (ex_state ''map_1''))"
    and "currentMap (snd (handleDeleteMap True (ex_state ''map_1''))) =
        (case filter (\<lambda>k. k \<noteq> currentMap (ex_state ''map_1'')) (map fst (savedMaps (ex_state ''map_1''))) of
           [] \<Rightarrow> ''default''
         | k # _ \<Rightarrow> if k = [] then ''default'' else k)"
    by blast+
  then have 2: "savedMaps (snd (handleDeleteMap True (ex_state ''map_1''))) =
     [(''default'', ex_project [ex_marker_a]), (''map_2'', ex_project [ex_marker_b])]"
    and 3: "currentMap (snd (handleDeleteMap True (ex_state ''map_1''))) = ''default''"
    by (simp_all add: ex_state_def)
  from 1 2 3 show ?thesis by blast
qed

subsection \<open>Row errors of the import (C8)\<close>



subsection \<open>Default title of an imported marker (C9)\<close>




subsection \<open>Duplicates inside one import (C1)\<close>

text \<open>
  C1. The import compares each row with the markers of the store before the import
  (lemma \<open>import_row_dup\<close>), not with the markers accepted from earlier rows of the same
  file: a file with the same position twice, imported into an empty store, commits both
  rows, at distance 0 from each other, with no error.
\<close>

theorem import_batch_duplicates:
  "import_file ex_clock ex_csv_twice [] =
     Some \<lparr>imported = 2, errors = [],
           newMarkers = [imported_marker 1700000000000 (10, 20) ''Imported Marker'' [],
                         imported_marker 1700000000001 (10, 20) ''Imported Marker'' []]\<rparr> \<and>
   snd (onFileSelected ex_clock ex_csv_twice []) =
     [imported_marker 1700000000000 (10, 20) ''Imported Marker'' [],
      imported_marker 1700000000001 (10, 20) ''Imported Marker'' []] \<and>
   distance_m 10 20 10 20 \<le> 5"
  by (simp add: onFileSelected_def import_eval parseCSV_ex_csv_twice ex_clock_def imported_marker_def distance_same)

subsection \<open>Marker ids (C6)\<close>

text \<open>
  C6. The import gives row \<open>i\<close> the id \<^verbatim>\<open>Date.now() + i\<close> and a map click gives
  \<^verbatim>\<open>Date.now()\<close>: after an import of two rows at clock \<open>t\<close>, a click at clock \<open>t + 1\<close>
  creates a marker with the id of the second imported marker.
\<close>

theorem ids_collide:
  "snd (addMarker_click False 1700000000001 (Fin 0) (Fin 20) (snd (onFileSelected ex_clock ex_csv_two []))) =
     [imported_marker 1700000000000 (10, 20) ''Imported Marker'' [],
      imported_marker 1700000000001 (30, 20) ''Imported Marker'' [],
      \<lparr>marker_id = 1700000000001, position = (0, 20), title = ''New Marker'', description = [],
        category = Some ''General'', image_m = None\<rparr>] \<and>
   \<not> distinct (map marker_id
       (snd (addMarker_click False 1700000000001 (Fin 0) (Fin 20) (snd (onFileSelected ex_clock ex_csv_two [])))))"
proof -
  have "\<not> distance_m 0 20 10 20 \<le> 5" "\<not> distance_m 0 20 30 20 \<le> 5"
    by (rule distance_meridian_far; simp)+
  then show ?thesis
    by (simp add: onFileSelected_ex_csv_two addMarker_click_def handleAddMarker_def imported_marker_def)
qed

subsection \<open>Format of the export (C2)\<close>

text \<open>
  C2, as amended. The exported text is the header row
  \<^verbatim>\<open>Title,Description,Latitude,Longitude,Category\<close> followed by one row per marker in the
  order of the list, the rows separated by line feeds; in a row the title and the
  description are enclosed in double quotes with every embedded double quote doubled,
  and the latitude, the longitude and the category are written bare, without quotes.
\<close>

theorem markersToCSVString_format:
  "markersToCSVString numToString ms =
     join [LF] (''Title,Description,Latitude,Longitude,Category'' #
       map (\<lambda>m. [DQ] @ double_quotes (title m) @ [DQ, COMMA, DQ] @ double_quotes (description m) @ [DQ, COMMA] @
                 numToString (fst (position m)) @ [COMMA] @ numToString (snd (position m)) @ [COMMA] @
                 (case category m of None \<Rightarrow> [] | Some c \<Rightarrow> c)) ms) \<and>
   double_quotes [] = [] \<and>
   double_quotes (c # s) = (if c = DQ then [DQ, DQ] else [c]) @ double_quotes s"
  by (simp add: markersToCSVString_def csv_headers_def csv_row_def double_quotes_def comp_def)

text \<open>
  The claim as stated has every field in double quotes; the export of one marker differs
  from that text.
\<close>

theorem csv_fields_not_all_quoted:
  "markersToCSVString ex_numToString [ex_marker_b] =
     ''Title,Description,Latitude,Longitude,Category'' @ [LF, DQ] @ ''Library'' @ [DQ, COMMA, DQ] @ ''Quiet'' @ [DQ] @
     '',0,180,College'' \<and>
   markersToCSVString ex_numToString [ex_marker_b] \<noteq> toCSV_spec ex_numToString [ex_marker_b]"
  by (simp add: markersToCSVString_def toCSV_spec_def csv_headers_def csv_row_def double_quotes_def
      ex_marker_b_def ex_numToString_def)

subsection \<open>Category counts (C4)\<close>

text \<open>
  C4, as amended. The counts of the PDF report have exactly the five categories as
  keys, in the order of the table, each with the number of markers whose category is
  that key (0 when there is none). The counts of the dashboard count a marker with an
  unset or empty category under \<^verbatim>\<open>General\<close> and have one entry for each category that
  occurs, and none for a category without markers.
\<close>

theorem category_counts:
  "map fst (catCounts ms) = [''General'', ''Restaurant'', ''College'', ''Event'', ''Shop''] \<and>
   map snd (catCounts ms) =
     map (\<lambda>k. length (filter (\<lambda>m. category m = Some k) ms))
       [''General'', ''Restaurant'', ''College'', ''Event'', ''Shop''] \<and>
   distinct (map fst (dashboard_counts ms)) \<and>
   map_of (dashboard_counts ms) k =
     (if length (filter (\<lambda>m. or_else (category m) ''General'' = k) ms) = 0 then None
      else Some (length (filter (\<lambda>m. or_else (category m) ''General'' = k) ms)))"
proof -
  have 1: "distinct (map fst (dashboard_counts ms))"
    unfolding dashboard_counts_def by (rule foldl_bump_distinct) simp
  have 2: "map_of (dashboard_counts ms) k = (if count_cat k ms = 0 then None else Some (count_cat k ms))"
    unfolding dashboard_counts_def by (simp add: foldl_bump)
  show ?thesis
    using 1 2 by (simp add: catCounts_def CATEGORIES_def count_cat_def)
qed

text \<open>
  On the markers of the claim the dashboard has no entries for the three categories
  without markers, and the report counts no marker under \<^verbatim>\<open>General\<close>: neither is the
  mapping the claim gives.
\<close>

theorem category_counts_example:
  "dashboard_counts [ex_marker_shop, ex_marker_shop, ex_marker_unset] = [(''Shop'', 2), (''General'', 1)] \<and>
   catCounts [ex_marker_shop, ex_marker_shop, ex_marker_unset] =
     [(''General'', 0), (''Restaurant'', 0), (''College'', 0), (''Event'', 0), (''Shop'', 2)] \<and>
   map_of (dashboard_counts [ex_marker_shop, ex_marker_shop, ex_marker_unset]) ''Event''
     \<noteq> map_of spec_example_counts ''Event'' \<and>
   map_of (catCounts [ex_marker_shop, ex_marker_shop, ex_marker_unset]) ''General''
     \<noteq> map_of spec_example_counts ''General''"
  by (simp add: dashboard_counts_def catCounts_def CATEGORIES_def or_else_def ex_marker_shop_def
      ex_marker_unset_def spec_example_counts_def)

subsection \<open>Export followed by import (C3)\<close>

text \<open>
  C3. The marker a map click creates has the empty description. The export writes the
  empty description as two double quotes; \<^verbatim>\<open>parseCSV\<close> tests for a doubled double quote
  before it toggles \<^verbatim>\<open>inQuotes\<close>, so it reads the two as one literal double quote: the
  marker imported from the exported text has a description of one double quote, and the
  tuples of the store after the import are not those of the store before.
\<close>

theorem roundtrip_empty_description:
  "handleAddMarker 1 (Fin 0) (Fin 0) [] = (None, [ex_marker_a]) \<and>
   markersToCSVString ex_numToString [ex_marker_a] =
     ''Title,Description,Latitude,Longitude,Category'' @ [LF, DQ] @ ''New Marker'' @ [DQ, COMMA, DQ, DQ] @
     '',0,0,General'' \<and>
   parseCSV (markersToCSVString ex_numToString [ex_marker_a]) =
     (csv_headers, [[''New Marker'', [DQ], ''0'', ''0'', ''General'']]) \<and>
   snd (onFileSelected ex_clock (markersToCSVString ex_numToString [ex_marker_a]) []) =
     [imported_marker 1700000000000 (0, 0) ''New Marker'' [DQ]] \<and>
   map tuple_of (snd (onFileSelected ex_clock (markersToCSVString ex_numToString [ex_marker_a]) [])) =
     [(''New Marker'', [DQ], 0, 0, Some ''General'')] \<and>
   set (map tuple_of (snd (onFileSelected ex_clock (markersToCSVString ex_numToString [ex_marker_a]) []))) \<noteq>
     set (map tuple_of [ex_marker_a])"
proof -
  have click: "handleAddMarker 1 (Fin 0) (Fin 0) [] = (None, [ex_marker_a])"
    by (simp add: handleAddMarker_def ex_marker_a_def)
  have a: "snd (onFileSelected ex_clock (markersToCSVString ex_numToString [ex_marker_a]) []) =
      [imported_marker 1700000000000 (0, 0) ''New Marker'' [DQ]]"
    by (simp add: onFileSelected_def import_file_def parseCSV_ex_marker_a header_indices_csv_headers
        import_row_def row_at_def or_else_def CATEGORIES_def js_Number_coords ex_clock_def imported_marker_def)
  have t: "map tuple_of [imported_marker 1700000000000 (0, 0) ''New Marker'' [DQ]] =
      [(''New Marker'', [DQ], 0, 0, Some ''General'')]"
    by (simp add: tuple_of_def imported_marker_def)
  have n: "set [(''New Marker'', [DQ], 0 :: real, 0 :: real, Some ''General'')] \<noteq>
      set (map tuple_of [ex_marker_a])"
    by (simp add: tuple_of_def ex_marker_a_def)
  show ?thesis
    unfolding a t
    using click export_ex_marker_a parseCSV_ex_marker_a n by (intro conjI) (assumption | rule refl)+
qed

subsection \<open>Where the export can be read back\<close>

text \<open>
  On the code as it is, the import reads back what the export wrote for markers with
  coordinates in range whose titles and descriptions each contain a character other than
  a double quote, contain no line feed and neither begin nor end with white space, and
  whose category is one of the five categories: the store after the import holds the
  same markers with new ids and without images, in the same order, and no row is
  refused.
\<close>

lemma export_import_roundtrip:
  assumes "\<forall>m \<in> set ms. roundtrip_safe numToString m"
  shows "onFileSelected now (markersToCSVString numToString ms) [] =
           (ImportComplete (length ms) [],
            map (\<lambda>(k, m). m\<lparr>marker_id := now k + int k, image_m := None\<rparr>) (enumerate 0 ms)) \<and>
         map tuple_of (snd (onFileSelected now (markersToCSVString numToString ms) [])) = map tuple_of ms"
proof -
  let ?idx = "header_indices csv_headers"
  let ?new = "map (\<lambda>(k, m). m\<lparr>marker_id := now k + int k, image_m := None\<rparr>) (enumerate 0 ms)"
  have "import_file now (markersToCSVString numToString ms) [] =
          Some (import_rows ?idx [] now 0 (map (parsed_row numToString) ms)
                  \<lparr>imported = 0, errors = [], newMarkers = []\<rparr>)"
    by (simp add: import_file_def parseCSV_export [OF assms] header_indices_csv_headers)
  also have "import_rows ?idx [] now 0 (map (parsed_row numToString) ms)
                  \<lparr>imported = 0, errors = [], newMarkers = []\<rparr> =
             \<lparr>imported = length ms, errors = [], newMarkers = ?new\<rparr>"
    by (simp add: import_rows_acc row_outcomes_export [OF assms] rights_Inr lefts_Inr)
  finally have 1: "onFileSelected now (markersToCSVString numToString ms) [] =
      (ImportComplete (length ms) [], ?new)"
    by (simp add: onFileSelected_def)
  have "map tuple_of (map (\<lambda>(k, m). m\<lparr>marker_id := now k + int k, image_m := None\<rparr>) (enumerate i ms))
          = map tuple_of ms" for i
    by (induction ms arbitrary: i) (simp_all add: tuple_of_def)
  with 1 show ?thesis by simp
qed

lemma export_import_roundtrip_example:
  "map tuple_of (snd (onFileSelected ex_clock (markersToCSVString ex_numToString [ex_marker_b, ex_marker_shop]) [])) =
     [(''Library'', ''Quiet'', 0, 180, Some ''College''),
      (''Corner shop'', ''Open late'', 3 / 2, 0, Some ''Shop'')]"
proof -
  have n: "num_safe ex_numToString 0" "num_safe ex_numToString 180" "num_safe ex_numToString (3 / 2)"
    by (simp_all add: num_safe_def ex_numToString_def js_Number_coords)
  have t: "text_safe ''Library''" "text_safe ''Quiet''" "text_safe ''Corner shop''" "text_safe ''Open late''"
    by (simp_all add: text_safe_def is_space_def)
  have "roundtrip_safe ex_numToString ex_marker_b" "roundtrip_safe ex_numToString ex_marker_shop"
    using n t by (simp_all add: roundtrip_safe_def ex_marker_b_def ex_marker_shop_def CATEGORIES_def)
  then have "\<forall>m \<in> set [ex_marker_b, ex_marker_shop]. roundtrip_safe ex_numToString m" by simp
  from export_import_roundtrip [OF this, of ex_clock] show ?thesis
    by (simp add: tuple_of_def ex_marker_b_def ex_marker_shop_def)
qed

text \<open>
  Outside these conditions the parser changes a field in further ways: white space at
  the end of a title is trimmed away; a line feed in a description cuts the row in two,
  and neither half is imported; a marker without category comes back with the category
  \<^verbatim>\<open>General\<close>.
\<close>

lemma roundtrip_other_changes:
  "map tuple_of (snd (onFileSelected ex_clock (markersToCSVString ex_numToString [ex_marker_spaced]) [])) =
     [(''Cafe'', ''Quiet'', 0, 180, Some ''College'')] \<and>
   onFileSelected ex_clock (markersToCSVString ex_numToString [ex_marker_two_lines]) [] =
     (ImportComplete 0 [MissingCoordinates 2, MissingCoordinates 3], []) \<and>
   map tuple_of (snd (onFileSelected ex_clock (markersToCSVString ex_numToString [ex_marker_unset]) [])) =
     [(''Bench'', ''By the river'', 0, 3 / 2, Some ''General'')]"
proof -
  have b: "snd (onFileSelected ex_clock (markersToCSVString ex_numToString [ex_marker_spaced]) []) =
      [(imported_marker 1700000000000 (0, 180) ''Cafe'' ''Quiet'')\<lparr>category := Some ''College''\<rparr>]"
    by (simp add: onFileSelected_def import_file_def parseCSV_ex_marker_spaced header_indices_csv_headers
        import_row_def row_at_def or_else_def CATEGORIES_def js_Number_coords ex_clock_def imported_marker_def)
  have c: "onFileSelected ex_clock (markersToCSVString ex_numToString [ex_marker_two_lines]) [] =
     (ImportComplete 0 [MissingCoordinates 2, MissingCoordinates 3], [])"
    by (simp add: onFileSelected_def import_file_def parseCSV_ex_marker_two_lines header_indices_csv_headers
        import_row_def row_at_def or_else_def)
  have d: "snd (onFileSelected ex_clock (markersToCSVString ex_numToString [ex_marker_unset]) []) =
      [imported_marker 1700000000000 (0, 3 / 2) ''Bench'' ''By the river'']"
    by (simp add: onFileSelected_def import_file_def parseCSV_ex_marker_unset header_indices_csv_headers
        import_row_def row_at_def or_else_def CATEGORIES_def js_Number_coords ex_clock_def imported_marker_def)
  show ?thesis
    unfolding b c d
    by (simp add: tuple_of_def imported_marker_def)
qed

end
